theory Spec2Isabelle
  imports Complex_Main
begin

section \<open>The video summarizer of \<^verbatim>\<open>src/main.py\<close>\<close>

text \<open>
  The class \<^verbatim>\<open>VideoSummarizer\<close> samples fixed-length segments of a video
  (\<^verbatim>\<open>extract_video_segments\<close>) and glues them into a summary
  (\<^verbatim>\<open>create_summary_video\<close>). All media work is done by moviepy, which is not
  part of the repository: it is modelled as a record of response functions, and every
  call the code makes is written to a trace, so that what the code requests, prints and
  closes can be read off the trace.

  Numbers: Python's \<^verbatim>\<open>int\<close> is \<open>int\<close>; Python's \<^verbatim>\<open>float\<close> is
  idealised as \<open>real\<close> (no rounding, no infinities, no NaN). Concrete evaluations below
  use values on which binary floating point computes the same results, except where the
  text says otherwise.
\<close>

subsection \<open>Exceptions, printed lines, backend calls\<close>

type_synonym handle = nat

text \<open>
  \<open>ValueError\<close> and \<open>ZeroDivisionError\<close> are the exceptions the source raises itself
  (by \<^verbatim>\<open>raise\<close>, by \<^verbatim>\<open>/\<close> and by \<^verbatim>\<open>//\<close>); \<open>Exception\<close> stands for
  whatever else a moviepy call raises, with its message.
\<close>

datatype exn = ValueError string | ZeroDivisionError | Exception string

fun str_exn :: "exn \<Rightarrow> string" where
  "str_exn (ValueError m) = m"
| "str_exn ZeroDivisionError = ''division by zero''"
| "str_exn (Exception m) = m"

text \<open>One constructor for each \<^verbatim>\<open>print\<close> of the source, with the values it formats.\<close>

datatype output_line =
    Video_duration real
  | Video_fps real
  | Video_size int int
  | Warning_too_short int real
  | Reducing_segments int
  | Trying_to_extract nat real real
  | Extracted_segment nat real real
  | Error_extracting nat exn
  | No_valid_segments
  | Warning_audio exn
  | Error_during_summary exn

datatype event =
    Print output_line
  | Call_VideoFileClip string
  | Call_subclipped handle real real
  | Call_with_duration handle real
  | Call_concatenate_videoclips "handle list" string
  | Call_subclip handle real real
  | Call_set_audio handle handle
  | Call_write_videofile handle string string string real
  | Call_close handle

text \<open>What \<^verbatim>\<open>mp.VideoFileClip(path)\<close> gives when it loads.\<close>

record video_file =
  clip :: handle
  clip_fps :: real
  clip_size :: "int \<times> int"
  clip_duration :: real
  clip_audio :: "handle option"

text \<open>
  The backend answers each call from the trace of everything that happened before it and
  the call's arguments: a deterministic backend with arbitrary internal state. \<open>Inl\<close> is
  a raised exception.
\<close>

record backend =
  VideoFileClip :: "event list \<Rightarrow> string \<Rightarrow> exn + video_file"
  subclipped :: "event list \<Rightarrow> handle \<Rightarrow> real \<Rightarrow> real \<Rightarrow> exn + handle"
  with_duration :: "event list \<Rightarrow> handle \<Rightarrow> real \<Rightarrow> exn + handle"
  concatenate_videoclips :: "event list \<Rightarrow> handle list \<Rightarrow> string \<Rightarrow> exn + handle"
  subclip :: "event list \<Rightarrow> handle \<Rightarrow> real \<Rightarrow> real \<Rightarrow> exn + handle"
  set_audio :: "event list \<Rightarrow> handle \<Rightarrow> handle \<Rightarrow> exn + handle"
  write_videofile :: "event list \<Rightarrow> handle \<Rightarrow> string \<Rightarrow> string \<Rightarrow> string \<Rightarrow> real \<Rightarrow> exn option"
  close :: "event list \<Rightarrow> handle \<Rightarrow> exn option"

text \<open>The attributes of a \<^verbatim>\<open>VideoSummarizer\<close>; \<open>audio\<close> is \<^verbatim>\<open>self.video.audio\<close>.\<close>

record summarizer =
  input_path :: string
  output_path :: string
  video :: handle
  fps :: real
  width :: int
  height :: int
  total_duration :: real
  audio :: "handle option"

subsection \<open>\<^verbatim>\<open>extract_video_segments\<close>\<close>

text \<open>
  Lines 61 to 65: when the video is shorter than \<^verbatim>\<open>num_segments * segment_duration\<close>
  the count becomes \<^verbatim>\<open>int(total_duration // segment_duration)\<close>, after a warning;
  \<^verbatim>\<open>//\<close> raises on a zero divisor.
\<close>

definition reduce_segments :: "real \<Rightarrow> int \<Rightarrow> real \<Rightarrow> event list \<Rightarrow> (exn + int) \<times> event list" where
  "reduce_segments total_dur num_segments segment_duration tr =
     (let total_required_duration = real_of_int num_segments * segment_duration in
      if total_dur < total_required_duration then
        (let tr1 = tr @ [Print (Warning_too_short num_segments segment_duration)] in
         if segment_duration = 0 then (Inl ZeroDivisionError, tr1)
         else
           (let num_segments' = \<lfloor>total_dur / segment_duration\<rfloor> in
            (Inr num_segments', tr1 @ [Print (Reducing_segments num_segments')])))
      else (Inr num_segments, tr))"

text \<open>Line 67: \<^verbatim>\<open>max(1, self.total_duration / num_segments)\<close>.\<close>

definition segment_interval :: "real \<Rightarrow> int \<Rightarrow> exn + real" where
  "segment_interval total_dur num_segments =
     (if num_segments = 0 then Inl ZeroDivisionError
      else Inr (max 1 (total_dur / real_of_int num_segments)))"

text \<open>
  Lines 70 to 81, the loop over \<^verbatim>\<open>range(num_segments)\<close>: a segment the backend
  refuses is reported and skipped.
\<close>

fun extract_loop ::
  "backend \<Rightarrow> handle \<Rightarrow> real \<Rightarrow> real \<Rightarrow> real \<Rightarrow> nat list \<Rightarrow> handle list \<Rightarrow> event list
     \<Rightarrow> handle list \<times> event list" where
  "extract_loop bk v total_dur segment_duration interval [] video_clips tr = (video_clips, tr)"
| "extract_loop bk v total_dur segment_duration interval (i # rest) video_clips tr =
     (let start_time = real i * interval;
          end_time = min (start_time + segment_duration) total_dur;
          tr1 = tr @ [Print (Trying_to_extract i start_time end_time)];
          tr2 = tr1 @ [Call_subclipped v start_time end_time]
      in case subclipped bk tr1 v start_time end_time of
           Inr video_clip \<Rightarrow>
             extract_loop bk v total_dur segment_duration interval rest
               (video_clips @ [video_clip])
               (tr2 @ [Print (Extracted_segment i start_time end_time)])
         | Inl e \<Rightarrow>
             extract_loop bk v total_dur segment_duration interval rest
               video_clips (tr2 @ [Print (Error_extracting i e)]))"

definition extract_video_segments ::
  "backend \<Rightarrow> summarizer \<Rightarrow> int \<Rightarrow> real \<Rightarrow> event list \<Rightarrow> (exn + handle list) \<times> event list" where
  "extract_video_segments bk self num_segments segment_duration tr =
     (if total_duration self = 0 then
        (Inl (ValueError ''Cannot extract segments: video duration is zero.''), tr)
      else
        case reduce_segments (total_duration self) num_segments segment_duration tr of
          (Inl e, tr1) \<Rightarrow> (Inl e, tr1)
        | (Inr num_segments', tr1) \<Rightarrow>
            (case segment_interval (total_duration self) num_segments' of
               Inl e \<Rightarrow> (Inl e, tr1)
             | Inr interval \<Rightarrow>
                 (case extract_loop bk (video self) (total_duration self) segment_duration
                         interval [0..<nat num_segments'] [] tr1 of
                    (video_clips, tr2) \<Rightarrow>
                      (Inr video_clips,
                       if video_clips = [] then tr2 @ [Print No_valid_segments] else tr2))))"

text \<open>
  The sampling plan of a run: the time ranges it asked the backend to cut, in the order
  of the requests, whether or not the backend delivered them.
\<close>

primrec requested_ranges :: "event list \<Rightarrow> (real \<times> real) list" where
  "requested_ranges [] = []"
| "requested_ranges (e # es) =
     (case e of Call_subclipped v a b \<Rightarrow> [(a, b)] | _ \<Rightarrow> []) @ requested_ranges es"

definition sampling_plan :: "backend \<Rightarrow> summarizer \<Rightarrow> int \<Rightarrow> real \<Rightarrow> (real \<times> real) list" where
  "sampling_plan bk self num_segments segment_duration =
     requested_ranges (snd (extract_video_segments bk self num_segments segment_duration []))"

text \<open>
  The counts a run announces with \<^verbatim>\<open>Reducing number of segments to ...\<close>, the
  second line of the warning that the plan was reduced.
\<close>

primrec reduced_counts :: "event list \<Rightarrow> int list" where
  "reduced_counts [] = []"
| "reduced_counts (e # es) =
     (case e of Print (Reducing_segments k) \<Rightarrow> [k] | _ \<Rightarrow> []) @ reduced_counts es"

text \<open>The value of \<^verbatim>\<open>num_segments\<close> when line 67 is reached.\<close>

definition effective_count :: "real \<Rightarrow> int \<Rightarrow> real \<Rightarrow> int" where
  "effective_count total_dur num_segments segment_duration =
     (if total_dur < real_of_int num_segments * segment_duration
      then \<lfloor>total_dur / segment_duration\<rfloor> else num_segments)"

text \<open>Lines 71 and 72 for one index.\<close>

definition time_range :: "real \<Rightarrow> real \<Rightarrow> real \<Rightarrow> nat \<Rightarrow> real \<times> real" where
  "time_range total_dur segment_duration interval i =
     (real i * interval, min (real i * interval + segment_duration) total_dur)"

definition valid_range :: "real \<Rightarrow> real \<times> real \<Rightarrow> bool" where
  "valid_range total_dur r = (0 \<le> fst r \<and> fst r < snd r \<and> snd r \<le> total_dur)"

subsection \<open>\<^verbatim>\<open>create_summary_video\<close>\<close>

text \<open>
  Line 107, the list comprehension: each clip in turn gets
  \<^verbatim>\<open>with_duration(adjusted_duration)\<close>; the first call that raises ends it.
\<close>

fun clips_with_duration ::
  "backend \<Rightarrow> real \<Rightarrow> handle list \<Rightarrow> event list \<Rightarrow> (exn + handle list) \<times> event list" where
  "clips_with_duration bk adjusted_duration [] tr = (Inr [], tr)"
| "clips_with_duration bk adjusted_duration (c # rest) tr =
     (let tr1 = tr @ [Call_with_duration c adjusted_duration] in
      case with_duration bk tr c adjusted_duration of
        Inl e \<Rightarrow> (Inl e, tr1)
      | Inr c' \<Rightarrow>
          (case clips_with_duration bk adjusted_duration rest tr1 of
             (Inl e, tr2) \<Rightarrow> (Inl e, tr2)
           | (Inr cs', tr2) \<Rightarrow> (Inr (c' # cs'), tr2)))"

text \<open>
  Lines 113 to 118, the inner \<^verbatim>\<open>try\<close>: with an audio track, cut it to
  \<^verbatim>\<open>(0, summary_duration)\<close> and set it on the final clip; any exception leaves
  the final clip as it was and prints a warning.
\<close>

definition add_audio ::
  "backend \<Rightarrow> summarizer \<Rightarrow> real \<Rightarrow> handle \<Rightarrow> event list \<Rightarrow> handle \<times> event list" where
  "add_audio bk self summary_duration final_clip tr =
     (case audio self of
        None \<Rightarrow> (final_clip, tr)
      | Some a \<Rightarrow>
          (let tr1 = tr @ [Call_subclip a 0 summary_duration] in
           case subclip bk tr a 0 summary_duration of
             Inl audio_error \<Rightarrow> (final_clip, tr1 @ [Print (Warning_audio audio_error)])
           | Inr au \<Rightarrow>
               (let tr2 = tr1 @ [Call_set_audio final_clip au] in
                case set_audio bk tr1 final_clip au of
                  Inl audio_error \<Rightarrow> (final_clip, tr2 @ [Print (Warning_audio audio_error)])
                | Inr final_clip' \<Rightarrow> (final_clip', tr2))))"

text \<open>
  Lines 105 to 128, the body of the outer \<^verbatim>\<open>try\<close>; the result is the exception
  that left it, if any.
\<close>

definition summary_body ::
  "backend \<Rightarrow> summarizer \<Rightarrow> handle list \<Rightarrow> real \<Rightarrow> real \<Rightarrow> event list
     \<Rightarrow> exn option \<times> event list" where
  "summary_body bk self video_segments summary_duration adjusted_duration tr =
     (case clips_with_duration bk adjusted_duration video_segments tr of
        (Inl e, tr1) \<Rightarrow> (Some e, tr1)
      | (Inr cs, tr1) \<Rightarrow>
          (let tr2 = tr1 @ [Call_concatenate_videoclips cs ''compose''] in
           case concatenate_videoclips bk tr1 cs ''compose'' of
             Inl e \<Rightarrow> (Some e, tr2)
           | Inr final_clip \<Rightarrow>
               (case add_audio bk self summary_duration final_clip tr2 of
                  (final_clip', tr3) \<Rightarrow>
                    (let tr4 = tr3 @ [Call_write_videofile final_clip' (output_path self)
                                        ''libx264'' ''aac'' (fps self)] in
                     case write_videofile bk tr3 final_clip' (output_path self)
                            ''libx264'' ''aac'' (fps self) of
                       Some e \<Rightarrow> (Some e, tr4)
                     | None \<Rightarrow> (close bk tr4 final_clip', tr4 @ [Call_close final_clip'])))))"

text \<open>Lines 135 and 136, the loop of the \<^verbatim>\<open>finally\<close> block.\<close>

fun close_segments :: "backend \<Rightarrow> handle list \<Rightarrow> event list \<Rightarrow> exn option \<times> event list" where
  "close_segments bk [] tr = (None, tr)"
| "close_segments bk (c # rest) tr =
     (case close bk tr c of
        Some e \<Rightarrow> (Some e, tr @ [Call_close c])
      | None \<Rightarrow> close_segments bk rest (tr @ [Call_close c]))"

definition create_summary_video ::
  "backend \<Rightarrow> summarizer \<Rightarrow> handle list \<Rightarrow> real \<Rightarrow> event list \<Rightarrow> (exn + string) \<times> event list" where
  "create_summary_video bk self video_segments summary_duration tr =
     (let total_segments = length video_segments in
      if total_segments = 0 then
        (Inl (ValueError ''No video segments found. Cannot create summary.''), tr)
      else
        (let adjusted_duration = summary_duration / real total_segments in
         case summary_body bk self video_segments summary_duration adjusted_duration tr of
           (r, tr1) \<Rightarrow>
             (let tr2 = (case r of
                           Some e \<Rightarrow> tr1 @ [Print (Error_during_summary e)]
                         | None \<Rightarrow> tr1) in
              case close_segments bk video_segments tr2 of
                (Some e, tr3) \<Rightarrow> (Inl e, tr3)
              | (None, tr3) \<Rightarrow> (Inr (output_path self), tr3))))"

text \<open>The handles a trace closes, in order.\<close>

primrec closed_handles :: "event list \<Rightarrow> handle list" where
  "closed_handles [] = []"
| "closed_handles (e # es) =
     (case e of Call_close h \<Rightarrow> [h] | _ \<Rightarrow> []) @ closed_handles es"

text \<open>The durations a trace asks clips to be rescaled to, in order.\<close>

primrec rescale_targets :: "event list \<Rightarrow> real list" where
  "rescale_targets [] = []"
| "rescale_targets (e # es) =
     (case e of Call_with_duration h x \<Rightarrow> [x] | _ \<Rightarrow> []) @ rescale_targets es"

text \<open>Whether a trace asks for a file to be written.\<close>

primrec writes_file :: "event list \<Rightarrow> bool" where
  "writes_file [] = False"
| "writes_file (e # es) =
     ((case e of Call_write_videofile h p c a f \<Rightarrow> True | _ \<Rightarrow> False) \<or> writes_file es)"

subsection \<open>The constructor and the default output path\<close>

text \<open>
  \<^verbatim>\<open>os.path.splitext\<close> is the standard library's, not the repository's. It is
  modelled after \<^verbatim>\<open>genericpath._splitext(p, sep, altsep, extsep)\<close>, which the posix
  flavour calls with \<^verbatim>\<open>'/'\<close>, no \<^verbatim>\<open>altsep\<close> and \<^verbatim>\<open>'.'\<close>, and the Windows
  flavour with a backslash, \<^verbatim>\<open>'/'\<close> and \<^verbatim>\<open>'.'\<close>. \<open>rfind\<close> is
  \<^verbatim>\<open>str.rfind\<close> for a one-character needle: the last index of the character, or -1.
\<close>

datatype os_name = Posix | Nt

primrec rfind :: "string \<Rightarrow> char \<Rightarrow> int" where
  "rfind [] c = - 1"
| "rfind (x # xs) c =
     (let r = rfind xs c in if 0 \<le> r then r + 1 else if x = c then 0 else - 1)"

text \<open>
  The loop that skips leading dots of the file name: true when it finds a character
  other than a dot before \<open>dotIndex\<close>.
\<close>

function skip_leading_dots :: "string \<Rightarrow> nat \<Rightarrow> nat \<Rightarrow> bool" where
  "skip_leading_dots p filenameIndex dotIndex =
     (if filenameIndex < dotIndex then
        (if p ! filenameIndex \<noteq> CHR ''.'' then True
         else skip_leading_dots p (filenameIndex + 1) dotIndex)
      else False)"
  by pat_completeness auto
termination
  by (relation "measure (\<lambda>(p, filenameIndex, dotIndex). dotIndex - filenameIndex)") auto

declare skip_leading_dots.simps [simp del]

definition splitext_generic :: "string \<Rightarrow> char \<Rightarrow> char option \<Rightarrow> string \<times> string" where
  "splitext_generic p sep altsep =
     (let sepIndex = (case altsep of
                        None \<Rightarrow> rfind p sep
                      | Some a \<Rightarrow> max (rfind p sep) (rfind p a));
          dotIndex = rfind p CHR ''.''
      in if dotIndex > sepIndex \<and> skip_leading_dots p (nat (sepIndex + 1)) (nat dotIndex)
         then (take (nat dotIndex) p, drop (nat dotIndex) p)
         else (p, []))"

definition splitext :: "os_name \<Rightarrow> string \<Rightarrow> string \<times> string" where
  "splitext os p =
     (case os of
        Posix \<Rightarrow> splitext_generic p CHR ''/'' None
      | Nt \<Rightarrow> splitext_generic p (CHR 0x5C) (Some CHR ''/''))"

text \<open>Lines 43 and 44.\<close>

definition generate_output_path :: "os_name \<Rightarrow> string \<Rightarrow> string" where
  "generate_output_path os inp =
     (case splitext os inp of (base, ext) \<Rightarrow> base @ ''_summary'' @ ext)"

text \<open>
  \<^verbatim>\<open>__init__\<close>. The output path is chosen first (line 16): Python's \<^verbatim>\<open>or\<close>
  takes the generated path when the argument is \<^verbatim>\<open>None\<close> or the empty string.
  Then the video is loaded; a failure to load and a zero duration raise \<open>ValueError\<close>.
\<close>

definition init ::
  "os_name \<Rightarrow> backend \<Rightarrow> string \<Rightarrow> string option \<Rightarrow> event list
     \<Rightarrow> (exn + summarizer) \<times> event list" where
  "init os bk inp outp tr =
     (let out = (case outp of
                   None \<Rightarrow> generate_output_path os inp
                 | Some p \<Rightarrow> if p = [] then generate_output_path os inp else p);
          tr1 = tr @ [Call_VideoFileClip inp]
      in case VideoFileClip bk tr inp of
           Inl e \<Rightarrow> (Inl (ValueError (''Error loading video file: '' @ str_exn e)), tr1)
         | Inr vf \<Rightarrow>
             (let tr2 = tr1 @ [Print (Video_duration (clip_duration vf)),
                               Print (Video_fps (clip_fps vf)),
                               Print (Video_size (fst (clip_size vf)) (snd (clip_size vf)))]
              in if clip_duration vf = 0 then
                   (Inl (ValueError ''Invalid video file or zero duration detected.''), tr2)
                 else
                   (Inr \<lparr>input_path = inp, output_path = out, video = clip vf,
                         fps = clip_fps vf, width = fst (clip_size vf),
                         height = snd (clip_size vf), total_duration = clip_duration vf,
                         audio = clip_audio vf\<rparr>, tr2)))"

subsection \<open>Concrete backends and summarizers for the examples\<close>

text \<open>
  A backend on which every call succeeds: a cut clip gets 10 plus the length of the trace
  as its handle, a rescaled clip the handle of its source plus 100, the concatenation 1000, the
  cut audio 2000 and the clip with audio 3000.
\<close>

definition backend_ok :: backend where
  "backend_ok =
     \<lparr>VideoFileClip = (\<lambda>tr p. Inr \<lparr>clip = 0, clip_fps = 30, clip_size = (640, 480),
                                     clip_duration = 100, clip_audio = Some 1\<rparr>),
      subclipped = (\<lambda>tr v a b. Inr (10 + length tr)),
      with_duration = (\<lambda>tr c x. Inr (c + 100)),
      concatenate_videoclips = (\<lambda>tr cs m. Inr 1000),
      subclip = (\<lambda>tr a x y. Inr 2000),
      set_audio = (\<lambda>tr c a. Inr 3000),
      write_videofile = (\<lambda>tr c p vc ac f. None),
      close = (\<lambda>tr c. None)\<rparr>"

text \<open>The same backend with a failing encoder, and with a failing audio cut.\<close>

definition backend_encode_fails :: backend where
  "backend_encode_fails =
     backend_ok\<lparr>write_videofile := (\<lambda>tr c p vc ac f. Some (Exception ''encoder error''))\<rparr>"

definition backend_audio_fails :: backend where
  "backend_audio_fails =
     backend_ok\<lparr>subclip := (\<lambda>tr a x y. Inl (Exception ''no attribute subclip''))\<rparr>"

text \<open>A loaded summarizer for a video of the given duration, with an audio track.\<close>

definition summarizer_of :: "real \<Rightarrow> summarizer" where
  "summarizer_of d =
     \<lparr>input_path = ''videoplayback.mp4'', output_path = ''videoplayback_summary.mp4'',
      video = 0, fps = 30, width = 640, height = 480, total_duration = d,
      audio = Some 1\<rparr>"




section \<open>Facts about the planner\<close>

subsection \<open>The plan of a run\<close>

lemma requested_ranges_append:
  "requested_ranges (xs @ ys) = requested_ranges xs @ requested_ranges ys"
  by (induction xs) simp_all

lemma extract_loop_ranges:
  "requested_ranges (snd (extract_loop bk v d s iv js clips tr))
     = requested_ranges tr @ map (time_range d s iv) js"
proof (induction js arbitrary: clips tr)
  case Nil
  show ?case by simp
next
  case (Cons i rest)
  show ?case
    by (cases "subclipped bk (tr @ [Print (Trying_to_extract i (real i * iv) (min (real i * iv + s) d))]) v (real i * iv) (min (real i * iv + s) d)")
      (simp_all add: Let_def Cons.IH requested_ranges_append time_range_def)
qed

lemma reduce_segments_ranges:
  "requested_ranges (snd (reduce_segments d n s tr)) = requested_ranges tr"
  by (simp add: reduce_segments_def Let_def requested_ranges_append)

lemma reduce_segments_fst:
  "fst (reduce_segments d n s tr) =
     (if s = 0 \<and> d < 0 then Inl ZeroDivisionError else Inr (effective_count d n s))"
  by (cases "s = 0") (simp_all add: reduce_segments_def effective_count_def Let_def)

lemma extract_video_segments_zero_duration:
  "total_duration self = 0 \<Longrightarrow>
   extract_video_segments bk self n s tr =
     (Inl (ValueError ''Cannot extract segments: video duration is zero.''), tr)"
  by (simp add: extract_video_segments_def)

lemma extract_video_segments_floor_division_by_zero:
  assumes "s = 0" and "total_duration self < 0"
  shows "extract_video_segments bk self n s tr =
     (Inl ZeroDivisionError, tr @ [Print (Warning_too_short n s)])"
  using assms by (simp add: extract_video_segments_def reduce_segments_def Let_def)

lemma extract_video_segments_division_by_zero:
  assumes "total_duration self \<noteq> 0" and "\<not> (s = 0 \<and> total_duration self < 0)"
    and "effective_count (total_duration self) n s = 0"
  shows "extract_video_segments bk self n s tr =
     (Inl ZeroDivisionError, snd (reduce_segments (total_duration self) n s tr))"
proof -
  obtain r tr1 where red: "reduce_segments (total_duration self) n s tr = (r, tr1)"
    by (cases "reduce_segments (total_duration self) n s tr")
  have "r = Inr 0"
    using reduce_segments_fst [of "total_duration self" n s tr] red assms(2,3) by auto
  then show ?thesis
    using assms(1) by (simp add: extract_video_segments_def red segment_interval_def)
qed

lemma extract_video_segments_loop:
  assumes "total_duration self \<noteq> 0" and "\<not> (s = 0 \<and> total_duration self < 0)"
    and "effective_count (total_duration self) n s \<noteq> 0"
  shows "\<exists>clips tr2.
     extract_loop bk (video self) (total_duration self) s
       (max 1 (total_duration self / real_of_int (effective_count (total_duration self) n s)))
       [0..<nat (effective_count (total_duration self) n s)] []
       (snd (reduce_segments (total_duration self) n s tr)) = (clips, tr2)
     \<and> extract_video_segments bk self n s tr =
         (Inr clips, if clips = [] then tr2 @ [Print No_valid_segments] else tr2)"
proof -
  let ?k = "effective_count (total_duration self) n s"
  obtain r tr1 where red: "reduce_segments (total_duration self) n s tr = (r, tr1)"
    by (cases "reduce_segments (total_duration self) n s tr")
  have r: "r = Inr ?k"
    using reduce_segments_fst [of "total_duration self" n s tr] red assms(2) by auto
  obtain clips tr2 where loop: "extract_loop bk (video self) (total_duration self) s
       (max 1 (total_duration self / real_of_int ?k)) [0..<nat ?k] [] tr1 = (clips, tr2)"
    by (cases "extract_loop bk (video self) (total_duration self) s
       (max 1 (total_duration self / real_of_int ?k)) [0..<nat ?k] [] tr1")
  have "extract_video_segments bk self n s tr =
         (Inr clips, if clips = [] then tr2 @ [Print No_valid_segments] else tr2)"
    using assms(1,3) by (simp add: extract_video_segments_def red r segment_interval_def loop)
  then show ?thesis using loop red by simp
qed

lemma sampling_plan_failed:
  assumes "total_duration self = 0 \<or> (s = 0 \<and> total_duration self < 0)
             \<or> effective_count (total_duration self) n s = 0"
  shows "sampling_plan bk self n s = []"
proof -
  let ?d = "total_duration self"
  consider (zero) "?d = 0" | (floordiv) "?d \<noteq> 0" "s = 0 \<and> ?d < 0"
    | (div) "?d \<noteq> 0" "\<not> (s = 0 \<and> ?d < 0)" "effective_count ?d n s = 0"
    using assms by blast
  then show ?thesis
  proof cases
    case zero
    then show ?thesis
      by (simp add: sampling_plan_def extract_video_segments_zero_duration)
  next
    case floordiv
    then show ?thesis
      by (simp add: sampling_plan_def extract_video_segments_floor_division_by_zero)
  next
    case div
    then show ?thesis
      by (simp add: sampling_plan_def extract_video_segments_division_by_zero
          reduce_segments_ranges)
  qed
qed

lemma sampling_plan_ranges:
  assumes "total_duration self \<noteq> 0" and "\<not> (s = 0 \<and> total_duration self < 0)"
    and "effective_count (total_duration self) n s \<noteq> 0"
  shows "sampling_plan bk self n s =
     map (time_range (total_duration self) s
            (max 1 (total_duration self / real_of_int (effective_count (total_duration self) n s))))
       [0..<nat (effective_count (total_duration self) n s)]"
proof -
  let ?d = "total_duration self"
  obtain clips tr2 where
    l: "extract_loop bk (video self) ?d s (max 1 (?d / real_of_int (effective_count ?d n s)))
         [0..<nat (effective_count ?d n s)] [] (snd (reduce_segments ?d n s [])) = (clips, tr2)"
    and e: "extract_video_segments bk self n s [] =
         (Inr clips, if clips = [] then tr2 @ [Print No_valid_segments] else tr2)"
    using extract_video_segments_loop [OF assms, of bk "[]"] by blast
  have "requested_ranges tr2 =
      map (time_range ?d s (max 1 (?d / real_of_int (effective_count ?d n s))))
        [0..<nat (effective_count ?d n s)]"
    using extract_loop_ranges [of bk "video self" ?d s
        "max 1 (?d / real_of_int (effective_count ?d n s))"
        "[0..<nat (effective_count ?d n s)]" "[]" "snd (reduce_segments ?d n s [])"]
    by (simp add: l reduce_segments_ranges)
  then show ?thesis
    by (simp add: sampling_plan_def e requested_ranges_append)
qed

lemma effective_count_nonneg:
  assumes "0 < d" "0 < n" "0 < s"
  shows "0 \<le> effective_count d n s"
  using assms by (simp add: effective_count_def)

lemma effective_count_le_duration:
  assumes "0 < d" "0 < n" "1 \<le> s"
  shows "real_of_int (effective_count d n s) \<le> d"
proof (cases "d < real_of_int n * s")
  case True
  have "real_of_int \<lfloor>d / s\<rfloor> \<le> d / s" by simp
  also have "d / s \<le> d" using assms by (simp add: divide_le_eq mult_le_cancel_left1 )
  finally show ?thesis using True by (simp add: effective_count_def)
next
  case False
  have "real_of_int n * 1 \<le> real_of_int n * s"
    using assms by (intro mult_left_mono) simp_all
  then show ?thesis using False by (simp add: effective_count_def)
qed

lemma start_before_end_of_video:
  assumes "0 < d" "0 < k" "i < nat k" "real_of_int k < d + 1"
  shows "real i * max 1 (d / real_of_int k) < d"
proof (cases "d / real_of_int k \<le> 1")
  case True
  have "real i + 1 \<le> real_of_int k" using assms(2,3) by linarith
  then show ?thesis using True assms(4) by (simp add: max_def)
next
  case False
  have ik: "real i < real_of_int k" using assms(2,3) by linarith
  have kpos: "0 < real_of_int k" using assms(2) by simp
  have "real i * (d / real_of_int k) < real_of_int k * (d / real_of_int k)"
    using ik assms(1) kpos by (intro mult_strict_right_mono) simp_all
  also have "\<dots> = d" using kpos by simp
  finally show ?thesis using False by (simp add: max_def)
qed

subsection \<open>The planned ranges lie inside the source\<close>

lemma last_start_outside_source:
  assumes "0 < d" and "d + 1 \<le> real_of_int k"
  shows "nat k - 1 < nat k" and "d \<le> real (nat k - 1) * max 1 (d / real_of_int k)"
proof -
  have k: "1 < k" using assms by linarith
  then show "nat k - 1 < nat k" by simp
  have "d / real_of_int k \<le> 1" using assms k by (simp add: divide_le_eq)
  then have iv: "max 1 (d / real_of_int k) = 1" by (simp add: max_def)
  have "real (nat k - 1) = real_of_int k - 1" using k by (simp add: of_nat_diff)
  then show "d \<le> real (nat k - 1) * max 1 (d / real_of_int k)"
    using assms(2) iv by simp
qed

text \<open>
  Claim C1, as amended. For a positive duration, count and segment duration, every time
  range of the sampling plan satisfies \<open>0 \<le> start < end \<le> duration\<close> exactly when the
  effective count is below the duration plus one; that is the case whenever the segment
  duration is at least one second, as the integer segment durations of the source are.
  Otherwise the one-second floor of the interval pushes the last start to the end of the
  video or beyond.
\<close>

theorem plan_ranges_within_source:
  assumes "0 < total_duration self" and "0 < n" and "0 < s"
  shows "(list_all (valid_range (total_duration self)) (sampling_plan bk self n s)
            \<longleftrightarrow> real_of_int (effective_count (total_duration self) n s) < total_duration self + 1)
    \<and> (1 \<le> s \<longrightarrow> list_all (valid_range (total_duration self)) (sampling_plan bk self n s))"
proof -
  let ?d = "total_duration self"
  let ?k = "effective_count ?d n s"
  let ?iv = "max 1 (?d / real_of_int ?k)"
  have inside: "list_all (valid_range ?d) (sampling_plan bk self n s)"
    if small: "real_of_int ?k < ?d + 1"
  proof (cases "?k = 0")
    case True
    then show ?thesis by (simp add: sampling_plan_failed)
  next
    case False
    then have kpos: "0 < ?k" using effective_count_nonneg [OF assms] by simp
    have "valid_range ?d (time_range ?d s ?iv i)" if "i < nat ?k" for i
    proof -
      have lt: "real i * ?iv < ?d"
        using start_before_end_of_video [OF assms(1) kpos that small] .
      have "0 \<le> real i * ?iv" by simp
      then show ?thesis using lt assms(3) by (simp add: valid_range_def time_range_def)
    qed
    moreover have "sampling_plan bk self n s = map (time_range ?d s ?iv) [0..<nat ?k]"
      using False assms(1,3) by (intro sampling_plan_ranges) simp_all
    ultimately show ?thesis by (simp add: list_all_iff)
  qed
  have outside: "\<not> list_all (valid_range ?d) (sampling_plan bk self n s)"
    if large: "?d + 1 \<le> real_of_int ?k"
  proof -
    have k0: "?k \<noteq> 0" using large assms(1) by auto
    have plan: "sampling_plan bk self n s = map (time_range ?d s ?iv) [0..<nat ?k]"
      using k0 assms(1,3) by (intro sampling_plan_ranges) simp_all
    note l = last_start_outside_source [OF assms(1) large]
    have "\<not> valid_range ?d (time_range ?d s ?iv (nat ?k - 1))"
      using l(2) by (simp add: valid_range_def time_range_def)
    moreover have "time_range ?d s ?iv (nat ?k - 1) \<in> set (sampling_plan bk self n s)"
      using l(1) by (simp add: plan)
    ultimately show ?thesis by (auto simp add: list_all_iff)
  qed
  have "real_of_int ?k < ?d + 1" if "1 \<le> s"
    using effective_count_le_duration [OF assms(1,2) that] by simp
  then show ?thesis using inside outside by (meson not_le)
qed

text \<open>The plan of a ten-second video, four segments of two seconds requested.\<close>

theorem plan_ranges_within_source_witness:
  "sampling_plan backend_ok (summarizer_of 10) 4 2 = [(0, 2), (5 / 2, 9 / 2), (5, 7), (15 / 2, 19 / 2)]
   \<and> effective_count 10 4 2 = 4
   \<and> list_all (valid_range 10) (sampling_plan backend_ok (summarizer_of 10) 4 2)"
proof -
  have k: "effective_count 10 4 2 = 4" by (simp add: effective_count_def)
  have "sampling_plan backend_ok (summarizer_of 10) 4 2
      = [(0, 2), (5 / 2, 9 / 2), (5, 7), (15 / 2, 19 / 2)]"
    by (simp add: sampling_plan_ranges summarizer_of_def k time_range_def eval_nat_numeral)
  moreover have "list_all (valid_range 10) (sampling_plan backend_ok (summarizer_of 10) 4 2)"
  proof -
    have d: "total_duration (summarizer_of 10) = 10" by (simp add: summarizer_of_def)
    show ?thesis
      using plan_ranges_within_source [of "summarizer_of 10" 4 2 backend_ok]
      by (simp add: d k)
  qed
  ultimately show ?thesis using k by simp
qed

text \<open>
  With segments of half a second the claim as stated fails: a video of 2.5 seconds and
  five segments has the interval floored at one second, and the ranges requested from
  index 3 on start after the end of the video.
\<close>

theorem plan_ranges_counterexample:
  "sampling_plan backend_ok (summarizer_of (5 / 2)) 5 (1 / 2)
     = [(0, 1 / 2), (1, 3 / 2), (2, 5 / 2), (3, 5 / 2), (4, 5 / 2)]
   \<and> \<not> list_all (valid_range (5 / 2)) (sampling_plan backend_ok (summarizer_of (5 / 2)) 5 (1 / 2))"
  by (simp add: sampling_plan_ranges summarizer_of_def effective_count_def time_range_def
      valid_range_def eval_nat_numeral)

subsection \<open>Starts, spacing and overlap\<close>







subsection \<open>The effective count\<close>

lemma reduced_counts_append:
  "reduced_counts (xs @ ys) = reduced_counts xs @ reduced_counts ys"
  by (induction xs) simp_all

lemma extract_loop_reduced_counts:
  "reduced_counts (snd (extract_loop bk v d s iv js clips tr)) = reduced_counts tr"
proof (induction js arbitrary: clips tr)
  case Nil
  show ?case by simp
next
  case (Cons i rest)
  show ?case
    by (cases "subclipped bk (tr @ [Print (Trying_to_extract i (real i * iv) (min (real i * iv + s) d))]) v (real i * iv) (min (real i * iv + s) d)")
      (simp_all add: Let_def Cons.IH reduced_counts_append)
qed

text \<open>
  A long enough video gets the requested number of ranges and no announcement of a
  reduction; a shorter one gets \<open>\<lfloor>duration / segment duration\<rfloor>\<close>, announced with that
  value.
\<close>

lemma plan_not_reduced:
  assumes "0 < total_duration self" and "0 < n"
    and "real_of_int n * s \<le> total_duration self"
  shows "length (sampling_plan bk self n s) = nat n"
    and "reduced_counts (snd (extract_video_segments bk self n s [])) = []"
proof -
  let ?d = "total_duration self"
  have k: "effective_count ?d n s = n" using assms(3) by (simp add: effective_count_def)
  have h: "?d \<noteq> 0" "\<not> (s = 0 \<and> ?d < 0)" "effective_count ?d n s \<noteq> 0"
    using assms(1,2) by (simp_all add: k)
  show "length (sampling_plan bk self n s) = nat n"
    using h by (simp add: sampling_plan_ranges k)
  obtain clips tr2 where
    l: "extract_loop bk (video self) ?d s (max 1 (?d / real_of_int (effective_count ?d n s)))
         [0..<nat (effective_count ?d n s)] [] (snd (reduce_segments ?d n s [])) = (clips, tr2)"
    and e: "extract_video_segments bk self n s [] =
         (Inr clips, if clips = [] then tr2 @ [Print No_valid_segments] else tr2)"
    using extract_video_segments_loop [OF h, of bk "[]"] by blast
  have red: "snd (reduce_segments ?d n s []) = []"
    using assms(3) by (simp add: reduce_segments_def Let_def)
  have "reduced_counts tr2 = reduced_counts (snd (reduce_segments ?d n s []))"
    using extract_loop_reduced_counts [of bk "video self" ?d s
        "max 1 (?d / real_of_int (effective_count ?d n s))"
        "[0..<nat (effective_count ?d n s)]" "[]" "snd (reduce_segments ?d n s [])"]
    unfolding l by simp
  then have "reduced_counts tr2 = []" by (simp add: red)
  then show "reduced_counts (snd (extract_video_segments bk self n s [])) = []"
    by (simp add: e reduced_counts_append)
qed

lemma plan_reduced:
  assumes "0 < total_duration self" and "0 < s"
    and "total_duration self < real_of_int n * s"
  shows "effective_count (total_duration self) n s = \<lfloor>total_duration self / s\<rfloor>"
    and "reduced_counts (snd (extract_video_segments bk self n s [])) = [\<lfloor>total_duration self / s\<rfloor>]"
proof -
  let ?d = "total_duration self"
  show k: "effective_count ?d n s = \<lfloor>?d / s\<rfloor>" using assms(3) by (simp add: effective_count_def)
  have red: "snd (reduce_segments ?d n s []) =
      [Print (Warning_too_short n s), Print (Reducing_segments \<lfloor>?d / s\<rfloor>)]"
    using assms(2,3) by (simp add: reduce_segments_def Let_def)
  show "reduced_counts (snd (extract_video_segments bk self n s [])) = [\<lfloor>?d / s\<rfloor>]"
  proof (cases "effective_count ?d n s = 0")
    case True
    have "extract_video_segments bk self n s [] =
        (Inl ZeroDivisionError, snd (reduce_segments ?d n s []))"
      using assms(1,2) True by (intro extract_video_segments_division_by_zero) simp_all
    then show ?thesis by (simp add: red)
  next
    case False
    have h: "?d \<noteq> 0" "\<not> (s = 0 \<and> ?d < 0)" "effective_count ?d n s \<noteq> 0"
      using assms(1,2) False by simp_all
    obtain clips tr2 where
      l: "extract_loop bk (video self) ?d s (max 1 (?d / real_of_int (effective_count ?d n s)))
           [0..<nat (effective_count ?d n s)] [] (snd (reduce_segments ?d n s [])) = (clips, tr2)"
      and e: "extract_video_segments bk self n s [] =
           (Inr clips, if clips = [] then tr2 @ [Print No_valid_segments] else tr2)"
      using extract_video_segments_loop [OF h, of bk "[]"] by blast
    have "reduced_counts tr2 = reduced_counts (snd (reduce_segments ?d n s []))"
      using extract_loop_reduced_counts [of bk "video self" ?d s
          "max 1 (?d / real_of_int (effective_count ?d n s))"
          "[0..<nat (effective_count ?d n s)]" "[]" "snd (reduce_segments ?d n s [])"]
      unfolding l by simp
    then have "reduced_counts tr2 = [\<lfloor>?d / s\<rfloor>]" by (simp add: red)
    then show ?thesis by (simp add: e reduced_counts_append)
  qed
qed

text \<open>
  When the count is reduced to zero, line 67 divides by it: the planner raises
  \<open>ZeroDivisionError\<close> after printing the warning, for every video shorter than one
  segment.
\<close>

lemma plan_reduced_to_zero_raises:
  assumes "0 < total_duration self" and "total_duration self < s"
    and "total_duration self < real_of_int n * s"
  shows "extract_video_segments bk self n s tr =
     (Inl ZeroDivisionError, tr @ [Print (Warning_too_short n s), Print (Reducing_segments 0)])"
proof -
  let ?d = "total_duration self"
  have s: "0 < s" using assms(1,2) by simp
  have fl: "\<lfloor>?d / s\<rfloor> = 0" using assms(1,2) s by (simp add: floor_eq_iff)
  have k: "effective_count ?d n s = 0" using assms(3) fl by (simp add: effective_count_def)
  have "extract_video_segments bk self n s tr =
        (Inl ZeroDivisionError, snd (reduce_segments ?d n s tr))"
    using assms(1) s k by (intro extract_video_segments_division_by_zero) simp_all
  moreover have "snd (reduce_segments ?d n s tr) =
      tr @ [Print (Warning_too_short n s), Print (Reducing_segments 0)]"
    using s assms(3) fl by (simp add: reduce_segments_def Let_def)
  ultimately show ?thesis by simp
qed

text \<open>
  Claim C2 at a two-second video with five segments of three seconds requested: the
  claim promises an empty plan, the code prints that it reduces the number of segments to
  0 and then raises \<open>ZeroDivisionError\<close>.
\<close>

theorem too_short_video_raises:
  "extract_video_segments backend_ok (summarizer_of 2) 5 3 [] =
     (Inl ZeroDivisionError, [Print (Warning_too_short 5 3), Print (Reducing_segments 0)])"
  by (simp add: extract_video_segments_def reduce_segments_def segment_interval_def
      summarizer_of_def Let_def)

subsection \<open>Validation of the inputs\<close>

text \<open>
  Claim C4, as amended. The planner raises its \<open>ValueError\<close> exactly when the duration
  of the video is zero, and then it returns no plan and touches nothing; for every other
  duration, whatever the count and the segment duration are, it never raises a
  \<open>ValueError\<close>.
\<close>

theorem invalid_input_only_for_zero_duration:
  "(total_duration self = 0 \<longrightarrow>
      extract_video_segments bk self n s tr =
        (Inl (ValueError ''Cannot extract segments: video duration is zero.''), tr))
   \<and> (total_duration self \<noteq> 0 \<longrightarrow>
        (\<forall>m. fst (extract_video_segments bk self n s tr) \<noteq> Inl (ValueError m)))"
proof (intro conjI impI allI)
  assume "total_duration self = 0"
  then show "extract_video_segments bk self n s tr =
        (Inl (ValueError ''Cannot extract segments: video duration is zero.''), tr)"
    by (rule extract_video_segments_zero_duration)
next
  fix m
  let ?d = "total_duration self"
  assume nz: "?d \<noteq> 0"
  consider (floordiv) "s = 0 \<and> ?d < 0"
    | (div) "\<not> (s = 0 \<and> ?d < 0)" "effective_count ?d n s = 0"
    | (loop) "\<not> (s = 0 \<and> ?d < 0)" "effective_count ?d n s \<noteq> 0"
    by blast
  then show "fst (extract_video_segments bk self n s tr) \<noteq> Inl (ValueError m)"
  proof cases
    case floordiv
    then show ?thesis by (simp add: extract_video_segments_floor_division_by_zero)
  next
    case div
    then show ?thesis using nz by (simp add: extract_video_segments_division_by_zero)
  next
    case loop
    then show ?thesis using extract_video_segments_loop [OF nz loop, of bk tr] by auto
  qed
qed

text \<open>A video of duration zero, and a video of ten seconds with a count of zero.\<close>

theorem invalid_input_only_for_zero_duration_witness:
  "extract_video_segments backend_ok (summarizer_of 0) 5 3 [] =
        (Inl (ValueError ''Cannot extract segments: video duration is zero.''), [])
   \<and> (\<forall>m. fst (extract_video_segments backend_ok (summarizer_of 10) 0 3 []) \<noteq> Inl (ValueError m))"
  using invalid_input_only_for_zero_duration [of "summarizer_of 0" backend_ok 5 3 "[]"]
    invalid_input_only_for_zero_duration [of "summarizer_of 10" backend_ok 0 3 "[]"]
  by (simp add: summarizer_of_def)

text \<open>
  The count and the segment duration are not validated: a count of -1 gives an empty list
  of clips without any error, a count of 0 a \<open>ZeroDivisionError\<close>, and a segment duration
  of 0 a plan of two empty ranges.
\<close>

theorem unvalidated_inputs_counterexample:
  "extract_video_segments backend_ok (summarizer_of 10) (- 1) 3 [] = (Inr [], [Print No_valid_segments])
   \<and> extract_video_segments backend_ok (summarizer_of 10) 0 3 [] = (Inl ZeroDivisionError, [])
   \<and> fst (extract_video_segments backend_ok (summarizer_of 10) 2 0 []) = Inr [11, 14]
   \<and> sampling_plan backend_ok (summarizer_of 10) 2 0 = [(0, 0), (5, 5)]"
  by (simp add: extract_video_segments_def reduce_segments_def segment_interval_def
      summarizer_of_def Let_def backend_ok_def sampling_plan_def eval_nat_numeral)

section \<open>Facts about the composition\<close>

subsection \<open>The traces of the loops\<close>

lemma clips_with_duration_success:
  "clips_with_duration bk ad vs tr = (Inr cs, tr1) \<Longrightarrow>
     tr1 = tr @ map (\<lambda>c. Call_with_duration c ad) vs \<and> length cs = length vs
     \<and> (\<forall>i < length vs.
           with_duration bk (tr @ map (\<lambda>c. Call_with_duration c ad) (take i vs)) (vs ! i) ad
             = Inr (cs ! i))"
proof (induction vs arbitrary: cs tr tr1)
  case Nil
  then show ?case by simp
next
  case (Cons c rest)
  from Cons.prems obtain c' where c': "with_duration bk tr c ad = Inr c'"
    by (cases "with_duration bk tr c ad") (simp_all add: Let_def)
  from Cons.prems c' obtain cs' where
    rec: "clips_with_duration bk ad rest (tr @ [Call_with_duration c ad]) = (Inr cs', tr1)"
    and cs: "cs = c' # cs'"
    by (auto simp add: Let_def split: prod.splits sum.splits)
  note ih = Cons.IH [OF rec]
  have nth: "with_duration bk (tr @ map (\<lambda>c. Call_with_duration c ad) (take i (c # rest)))
               ((c # rest) ! i) ad = Inr (cs ! i)" if "i < length (c # rest)" for i
  proof (cases i)
    case 0
    then show ?thesis using c' cs by simp
  next
    case (Suc j)
    then have "j < length rest" using that by simp
    then show ?thesis using ih Suc cs by simp
  qed
  show ?case using ih cs nth by simp
qed

lemma clips_with_duration_trace:
  "\<exists>k \<le> length vs. snd (clips_with_duration bk ad vs tr)
       = tr @ map (\<lambda>c. Call_with_duration c ad) (take k vs)"
proof (induction vs arbitrary: tr)
  case Nil
  show ?case by simp
next
  case (Cons c rest)
  show ?case
  proof (cases "with_duration bk tr c ad")
    case (Inl e)
    have "snd (clips_with_duration bk ad (c # rest) tr)
        = tr @ map (\<lambda>c. Call_with_duration c ad) (take (Suc 0) (c # rest))"
      using Inl by (simp add: Let_def)
    then show ?thesis by (intro exI [of _ "Suc 0"]) simp
  next
    case (Inr c')
    obtain k where k: "k \<le> length rest"
      "snd (clips_with_duration bk ad rest (tr @ [Call_with_duration c ad]))
         = (tr @ [Call_with_duration c ad]) @ map (\<lambda>c. Call_with_duration c ad) (take k rest)"
      using Cons.IH [of "tr @ [Call_with_duration c ad]"] by blast
    have "snd (clips_with_duration bk ad (c # rest) tr)
        = tr @ map (\<lambda>c. Call_with_duration c ad) (take (Suc k) (c # rest))"
      using Inr k(2) by (auto simp add: Let_def split: prod.splits sum.splits)
    then show ?thesis using k(1) by (intro exI [of _ "Suc k"]) simp
  qed
qed

lemma close_segments_trace:
  "\<exists>k \<le> length vs. snd (close_segments bk vs tr) = tr @ map Call_close (take k vs)"
proof (induction vs arbitrary: tr)
  case Nil
  show ?case by simp
next
  case (Cons c rest)
  show ?case
  proof (cases "close bk tr c")
    case (Some e)
    have "snd (close_segments bk (c # rest) tr) = tr @ map Call_close (take (Suc 0) (c # rest))"
      using Some by simp
    then show ?thesis by (intro exI [of _ "Suc 0"]) simp
  next
    case None
    obtain k where k: "k \<le> length rest"
      "snd (close_segments bk rest (tr @ [Call_close c]))
         = (tr @ [Call_close c]) @ map Call_close (take k rest)"
      using Cons.IH [of "tr @ [Call_close c]"] by blast
    have "snd (close_segments bk (c # rest) tr) = tr @ map Call_close (take (Suc k) (c # rest))"
      using None k(2) by simp
    then show ?thesis using k(1) by (intro exI [of _ "Suc k"]) simp
  qed
qed

lemma close_segments_all:
  "\<forall>tr'. \<forall>h. h \<in> set vs \<longrightarrow> close bk tr' h = None \<Longrightarrow>
   close_segments bk vs tr = (None, tr @ map Call_close vs)"
  by (induction vs arbitrary: tr) simp_all

lemma rescale_targets_append:
  "rescale_targets (xs @ ys) = rescale_targets xs @ rescale_targets ys"
  by (induction xs) simp_all

lemma rescale_targets_with_duration:
  "rescale_targets (map (\<lambda>c. Call_with_duration c ad) cs) = replicate (length cs) ad"
  by (induction cs) simp_all

lemma rescale_targets_close:
  "rescale_targets (map Call_close cs) = []"
  by (induction cs) simp_all

lemma add_audio_rescale_targets:
  "rescale_targets (snd (add_audio bk self D fc tr)) = rescale_targets tr"
  by (simp add: add_audio_def Let_def rescale_targets_append split: option.splits sum.splits)

lemma summary_body_rescale_targets:
  "\<exists>k \<le> length vs. rescale_targets (snd (summary_body bk self vs D ad tr))
      = rescale_targets tr @ replicate k ad"
proof -
  obtain k where k: "k \<le> length vs" "snd (clips_with_duration bk ad vs tr)
       = tr @ map (\<lambda>c. Call_with_duration c ad) (take k vs)"
    using clips_with_duration_trace [of vs bk ad tr] by blast
  obtain r tr1 where c: "clips_with_duration bk ad vs tr = (r, tr1)"
    by (cases "clips_with_duration bk ad vs tr")
  have tr1: "rescale_targets tr1 = rescale_targets tr @ replicate k ad"
    using k c by (simp add: rescale_targets_append rescale_targets_with_duration min_absorb2)
  have "rescale_targets (snd (summary_body bk self vs D ad tr)) = rescale_targets tr1"
  proof (cases r)
    case (Inl e)
    then show ?thesis by (simp add: summary_body_def c)
  next
    case (Inr cs)
    show ?thesis
    proof (cases "concatenate_videoclips bk tr1 cs ''compose''")
      case (Inl e)
      then show ?thesis using Inr by (simp add: summary_body_def c Let_def rescale_targets_append)
    next
      case fc: (Inr final_clip)
      obtain fc' tr3 where
        a: "add_audio bk self D final_clip (tr1 @ [Call_concatenate_videoclips cs ''compose'']) = (fc', tr3)"
        by (cases "add_audio bk self D final_clip (tr1 @ [Call_concatenate_videoclips cs ''compose''])")
      have "rescale_targets tr3 = rescale_targets tr1"
        using add_audio_rescale_targets [of bk self D final_clip
            "tr1 @ [Call_concatenate_videoclips cs ''compose'']"]
        by (simp add: a rescale_targets_append)
      then show ?thesis using Inr fc
        by (simp add: summary_body_def c Let_def a rescale_targets_append split: option.splits)
    qed
  qed
  then show ?thesis using k(1) tr1 by auto
qed

lemma create_summary_video_rescale_targets:
  assumes "vs \<noteq> []"
  shows "\<exists>k \<le> length vs. rescale_targets (snd (create_summary_video bk self vs D tr))
      = rescale_targets tr @ replicate k (D / real (length vs))"
proof -
  let ?ad = "D / real (length vs)"
  obtain r tr1 where b: "summary_body bk self vs D ?ad tr = (r, tr1)"
    by (cases "summary_body bk self vs D ?ad tr")
  obtain k where k: "k \<le> length vs" "rescale_targets tr1 = rescale_targets tr @ replicate k ?ad"
    using summary_body_rescale_targets [of vs bk self D ?ad tr] b by auto
  let ?tr2 = "case r of Some e \<Rightarrow> tr1 @ [Print (Error_during_summary e)] | None \<Rightarrow> tr1"
  have tr2: "rescale_targets ?tr2 = rescale_targets tr1"
    by (cases r) (simp_all add: rescale_targets_append)
  obtain j where j: "snd (close_segments bk vs ?tr2) = ?tr2 @ map Call_close (take j vs)"
    using close_segments_trace [of vs bk ?tr2] by blast
  have "rescale_targets (snd (close_segments bk vs ?tr2)) = rescale_targets tr1"
    unfolding j by (simp add: rescale_targets_append rescale_targets_close tr2)
  moreover have "snd (create_summary_video bk self vs D tr) = snd (close_segments bk vs ?tr2)"
    using assms by (simp add: create_summary_video_def b Let_def split: prod.splits option.splits)
  ultimately show ?thesis using k by auto
qed

lemma create_summary_video_after_audio:
  assumes "vs \<noteq> []"
    and "clips_with_duration bk (D / real (length vs)) vs tr = (Inr cs, tr1)"
    and "concatenate_videoclips bk tr1 cs ''compose'' = Inr fc"
    and "add_audio bk self D fc (tr1 @ [Call_concatenate_videoclips cs ''compose'']) = (fc', tr3)"
  shows "\<exists>rest. snd (create_summary_video bk self vs D tr) =
      tr3 @ [Call_write_videofile fc' (output_path self) ''libx264'' ''aac'' (fps self)] @ rest"
proof -
  let ?w = "Call_write_videofile fc' (output_path self) ''libx264'' ''aac'' (fps self)"
  obtain r tr4 where b: "summary_body bk self vs D (D / real (length vs)) tr = (r, tr4)"
    by (cases "summary_body bk self vs D (D / real (length vs)) tr")
  have "\<exists>x. tr4 = tr3 @ [?w] @ x"
    using b assms(2,3,4)
    by (auto simp add: summary_body_def Let_def split: option.splits)
  then obtain x where x: "tr4 = tr3 @ [?w] @ x" by blast
  let ?tr5 = "case r of Some e \<Rightarrow> tr4 @ [Print (Error_during_summary e)] | None \<Rightarrow> tr4"
  obtain y where y: "?tr5 = tr3 @ [?w] @ y"
    using x by (cases r) auto
  obtain j where j: "snd (close_segments bk vs ?tr5) = ?tr5 @ map Call_close (take j vs)"
    using close_segments_trace [of vs bk ?tr5] by blast
  have "snd (create_summary_video bk self vs D tr) = snd (close_segments bk vs ?tr5)"
    using assms(1) by (simp add: create_summary_video_def b Let_def split: prod.splits option.splits)
  then have "snd (create_summary_video bk self vs D tr) = tr3 @ [?w] @ (y @ map Call_close (take j vs))"
    using j y by simp
  then show ?thesis by blast
qed


lemma add_audio_extends:
  "\<exists>x. snd (add_audio bk self D fc tr) = tr @ x"
  by (simp add: add_audio_def Let_def split: option.splits sum.splits)

lemma summary_body_after_concatenate:
  assumes "clips_with_duration bk ad vs tr = (Inr cs, tr1)"
  shows "\<exists>x. snd (summary_body bk self vs D ad tr)
           = tr1 @ [Call_concatenate_videoclips cs ''compose''] @ x"
proof (cases "concatenate_videoclips bk tr1 cs ''compose''")
  case (Inl e)
  then show ?thesis using assms by (simp add: summary_body_def Let_def)
next
  case (Inr fc)
  let ?tr2 = "tr1 @ [Call_concatenate_videoclips cs ''compose'']"
  obtain fc' tr3 where a: "add_audio bk self D fc ?tr2 = (fc', tr3)"
    by (cases "add_audio bk self D fc ?tr2")
  obtain y where y: "tr3 = ?tr2 @ y"
    using add_audio_extends [of bk self D fc ?tr2] a by auto
  show ?thesis
    using assms Inr a y by (simp add: summary_body_def Let_def split: option.splits)
qed

subsection \<open>Rescaling and concatenation\<close>

text \<open>
  Claim C5. For a non-empty list of \<open>N\<close> clips and a summary duration \<open>D\<close>, every
  rescale the composition asks for has the target \<open>D / N\<close>, never a duration of the
  clip's own; and when the backend honours the rescales, they are asked for clip by clip in
  the order of the list, the rescaled clips keep that order, and the next request is their
  concatenation with the method \<^verbatim>\<open>compose\<close>.
\<close>

theorem clips_rescaled_to_equal_share:
  assumes "vs \<noteq> []"
  shows "(\<exists>k \<le> length vs. rescale_targets (snd (create_summary_video bk self vs D tr))
            = rescale_targets tr @ replicate k (D / real (length vs)))
    \<and> (\<forall>cs tr1. clips_with_duration bk (D / real (length vs)) vs tr = (Inr cs, tr1) \<longrightarrow>
          length cs = length vs
          \<and> (\<forall>i < length vs.
                with_duration bk (tr @ map (\<lambda>c. Call_with_duration c (D / real (length vs))) (take i vs))
                  (vs ! i) (D / real (length vs)) = Inr (cs ! i))
          \<and> (\<exists>rest. snd (create_summary_video bk self vs D tr) =
                tr @ map (\<lambda>c. Call_with_duration c (D / real (length vs))) vs
                   @ [Call_concatenate_videoclips cs ''compose''] @ rest))"
proof -
  let ?ad = "D / real (length vs)"
  have targets: "\<exists>k \<le> length vs. rescale_targets (snd (create_summary_video bk self vs D tr))
            = rescale_targets tr @ replicate k ?ad"
    using create_summary_video_rescale_targets [OF assms] .
  have ordered: "length cs = length vs
      \<and> (\<forall>i < length vs. with_duration bk (tr @ map (\<lambda>c. Call_with_duration c ?ad) (take i vs))
                  (vs ! i) ?ad = Inr (cs ! i))
      \<and> (\<exists>rest. snd (create_summary_video bk self vs D tr) =
                tr @ map (\<lambda>c. Call_with_duration c ?ad) vs
                   @ [Call_concatenate_videoclips cs ''compose''] @ rest)"
    if c: "clips_with_duration bk ?ad vs tr = (Inr cs, tr1)" for cs tr1
  proof -
    note s = clips_with_duration_success [OF c]
    have tr1: "tr1 = tr @ map (\<lambda>c. Call_with_duration c ?ad) vs" using s by simp
    obtain r tr4 where b: "summary_body bk self vs D ?ad tr = (r, tr4)"
      by (cases "summary_body bk self vs D ?ad tr")
    have "\<exists>x. tr4 = tr1 @ [Call_concatenate_videoclips cs ''compose''] @ x"
      using summary_body_after_concatenate [OF c, of self D] b by simp
    then obtain x where x: "tr4 = tr1 @ [Call_concatenate_videoclips cs ''compose''] @ x" by blast
    let ?tr5 = "case r of Some e \<Rightarrow> tr4 @ [Print (Error_during_summary e)] | None \<Rightarrow> tr4"
    obtain y where y: "?tr5 = tr1 @ [Call_concatenate_videoclips cs ''compose''] @ y"
      using x by (cases r) auto
    obtain j where j: "snd (close_segments bk vs ?tr5) = ?tr5 @ map Call_close (take j vs)"
      using close_segments_trace [of vs bk ?tr5] by blast
    have "snd (create_summary_video bk self vs D tr) = snd (close_segments bk vs ?tr5)"
      using assms by (simp add: create_summary_video_def b Let_def split: prod.splits option.splits)
    then have "snd (create_summary_video bk self vs D tr) =
        tr @ map (\<lambda>c. Call_with_duration c ?ad) vs
          @ [Call_concatenate_videoclips cs ''compose''] @ (y @ map Call_close (take j vs))"
      using j y tr1 by simp
    then have "\<exists>rest. snd (create_summary_video bk self vs D tr) =
                  tr @ map (\<lambda>c. Call_with_duration c ?ad) vs
                     @ [Call_concatenate_videoclips cs ''compose''] @ rest"
      by blast
    then show ?thesis using s by blast
  qed
  show ?thesis using targets ordered by blast
qed


text \<open>Five clips and a summary of 30 seconds on the backend that always succeeds.\<close>

lemma create_summary_video_run:
  "create_summary_video backend_ok (summarizer_of 100) [11, 14, 17, 20, 23] 30 [] =
     (Inr ''videoplayback_summary.mp4'',
      [Call_with_duration 11 6, Call_with_duration 14 6, Call_with_duration 17 6,
       Call_with_duration 20 6, Call_with_duration 23 6,
       Call_concatenate_videoclips [111, 114, 117, 120, 123] ''compose'',
       Call_subclip 1 0 30, Call_set_audio 1000 2000,
       Call_write_videofile 3000 ''videoplayback_summary.mp4'' ''libx264'' ''aac'' 30,
       Call_close 3000,
       Call_close 11, Call_close 14, Call_close 17, Call_close 20, Call_close 23])"
  by (simp add: create_summary_video_def summary_body_def add_audio_def backend_ok_def
      summarizer_of_def Let_def)

theorem clips_rescaled_to_equal_share_witness:
  "[11, 14, 17, 20, 23 :: nat] \<noteq> []
   \<and> clips_with_duration backend_ok (30 / real (length [11, 14, 17, 20, 23 :: nat]))
        [11, 14, 17, 20, 23] [] =
        (Inr [111, 114, 117, 120, 123],
         [Call_with_duration 11 6, Call_with_duration 14 6, Call_with_duration 17 6,
          Call_with_duration 20 6, Call_with_duration 23 6])
   \<and> rescale_targets (snd (create_summary_video backend_ok (summarizer_of 100)
        [11, 14, 17, 20, 23] 30 [])) = [6, 6, 6, 6, 6]
   \<and> (\<exists>rest. snd (create_summary_video backend_ok (summarizer_of 100) [11, 14, 17, 20, 23] 30 []) =
         [Call_with_duration 11 6, Call_with_duration 14 6, Call_with_duration 17 6,
          Call_with_duration 20 6, Call_with_duration 23 6,
          Call_concatenate_videoclips [111, 114, 117, 120, 123] ''compose''] @ rest)"
proof -
  have a: "[11, 14, 17, 20, 23 :: nat] \<noteq> []" by simp
  have b: "clips_with_duration backend_ok (30 / real (length [11, 14, 17, 20, 23 :: nat]))
        [11, 14, 17, 20, 23] [] =
        (Inr [111, 114, 117, 120, 123],
         [Call_with_duration 11 6, Call_with_duration 14 6, Call_with_duration 17 6,
          Call_with_duration 20 6, Call_with_duration 23 6])"
    by (simp add: backend_ok_def Let_def)
  have c: "rescale_targets (snd (create_summary_video backend_ok (summarizer_of 100)
        [11, 14, 17, 20, 23] 30 [])) = [6, 6, 6, 6, 6]"
    by (simp add: create_summary_video_run)
  have d: "\<exists>rest. snd (create_summary_video backend_ok (summarizer_of 100) [11, 14, 17, 20, 23] 30 []) =
         [Call_with_duration 11 6, Call_with_duration 14 6, Call_with_duration 17 6,
          Call_with_duration 20 6, Call_with_duration 23 6,
          Call_concatenate_videoclips [111, 114, 117, 120, 123] ''compose''] @ rest"
    using clips_rescaled_to_equal_share [OF a, of backend_ok "summarizer_of 100" 30 "[]"] b
    by simp
  show ?thesis using a b c d by blast
qed

subsection \<open>No segments\<close>

text \<open>
  Claim C6. With an empty list of clips the composition raises the \<open>ValueError\<close> that
  no video segments were found, and the trace is the one it started from: no backend call
  is made, so no file is written.
\<close>

theorem no_segments_no_summary:
  "create_summary_video bk self [] D tr =
     (Inl (ValueError ''No video segments found. Cannot create summary.''), tr)"
  by (simp add: create_summary_video_def)

text \<open>The same at a concrete summarizer.\<close>

theorem no_segments_no_summary_witness:
  "create_summary_video backend_ok (summarizer_of 100) [] 30 [] =
     (Inl (ValueError ''No video segments found. Cannot create summary.''), [])
   \<and> \<not> writes_file (snd (create_summary_video backend_ok (summarizer_of 100) [] 30 []))"
  using no_segments_no_summary [of backend_ok "summarizer_of 100" 30 "[]"] by simp

subsection \<open>A failing encoder\<close>

text \<open>
  When \<^verbatim>\<open>write_videofile\<close> raises, the handler of line 130 prints the exception and
  the function goes on to return the output path, as it does after a successful encode.
\<close>

lemma encode_failure_is_swallowed:
  assumes "vs \<noteq> []"
    and "clips_with_duration bk (D / real (length vs)) vs tr = (Inr cs, tr1)"
    and "concatenate_videoclips bk tr1 cs ''compose'' = Inr fc"
    and "add_audio bk self D fc (tr1 @ [Call_concatenate_videoclips cs ''compose'']) = (fc', tr3)"
    and "write_videofile bk tr3 fc' (output_path self) ''libx264'' ''aac'' (fps self) = Some e"
    and "\<forall>tr'. \<forall>h. h \<in> set vs \<longrightarrow> close bk tr' h = None"
  shows "create_summary_video bk self vs D tr =
     (Inr (output_path self),
      tr3 @ [Call_write_videofile fc' (output_path self) ''libx264'' ''aac'' (fps self),
             Print (Error_during_summary e)] @ map Call_close vs)"
  using assms(1-5)
  by (simp add: create_summary_video_def summary_body_def Let_def close_segments_all [OF assms(6)])

text \<open>
  Claim C7 at one clip and an encoder that fails: the claim promises an error to the
  caller and no artifact path, the code prints the error and returns the output path.
\<close>

theorem encode_failure_returns_path:
  "create_summary_video backend_encode_fails (summarizer_of 100) [11] 30 [] =
     (Inr ''videoplayback_summary.mp4'',
      [Call_with_duration 11 30, Call_concatenate_videoclips [111] ''compose'',
       Call_subclip 1 0 30, Call_set_audio 1000 2000,
       Call_write_videofile 3000 ''videoplayback_summary.mp4'' ''libx264'' ''aac'' 30,
       Print (Error_during_summary (Exception ''encoder error'')),
       Call_close 11])"
  by (simp add: create_summary_video_def summary_body_def add_audio_def backend_encode_fails_def
      backend_ok_def summarizer_of_def Let_def)

subsection \<open>Audio\<close>

text \<open>
  Claim C8. When the source has an audio track and the clips were rescaled and
  concatenated, the next request is the cut of the source audio to \<open>(0, D)\<close>, \<open>D\<close> the
  summary duration, and after a successful cut the request to set it on the concatenated
  clip. When the cut or the attachment raises, the composition prints a warning and goes
  straight on to encode the concatenated clip itself, the clip it would have encoded with
  no audio at all; when both succeed it encodes the clip with the audio set.
\<close>

theorem audio_is_best_effort:
  assumes "vs \<noteq> []" and "audio self = Some a"
    and "clips_with_duration bk (D / real (length vs)) vs tr = (Inr cs, tr1)"
    and "concatenate_videoclips bk tr1 cs ''compose'' = Inr fc"
  shows "(\<exists>rest. snd (create_summary_video bk self vs D tr) =
            tr1 @ [Call_concatenate_videoclips cs ''compose'', Call_subclip a 0 D] @ rest)
    \<and> (\<forall>e. subclip bk (tr1 @ [Call_concatenate_videoclips cs ''compose'']) a 0 D = Inl e \<longrightarrow>
          (\<exists>rest. snd (create_summary_video bk self vs D tr) =
             tr1 @ [Call_concatenate_videoclips cs ''compose'', Call_subclip a 0 D,
                    Print (Warning_audio e),
                    Call_write_videofile fc (output_path self) ''libx264'' ''aac'' (fps self)]
                 @ rest))
    \<and> (\<forall>au. subclip bk (tr1 @ [Call_concatenate_videoclips cs ''compose'']) a 0 D = Inr au \<longrightarrow>
          (\<forall>e. set_audio bk (tr1 @ [Call_concatenate_videoclips cs ''compose'', Call_subclip a 0 D])
                  fc au = Inl e \<longrightarrow>
             (\<exists>rest. snd (create_summary_video bk self vs D tr) =
                tr1 @ [Call_concatenate_videoclips cs ''compose'', Call_subclip a 0 D,
                       Call_set_audio fc au, Print (Warning_audio e),
                       Call_write_videofile fc (output_path self) ''libx264'' ''aac'' (fps self)]
                    @ rest))
          \<and> (\<forall>fc'. set_audio bk (tr1 @ [Call_concatenate_videoclips cs ''compose'', Call_subclip a 0 D])
                    fc au = Inr fc' \<longrightarrow>
             (\<exists>rest. snd (create_summary_video bk self vs D tr) =
                tr1 @ [Call_concatenate_videoclips cs ''compose'', Call_subclip a 0 D,
                       Call_set_audio fc au,
                       Call_write_videofile fc' (output_path self) ''libx264'' ''aac'' (fps self)]
                    @ rest)))"
proof -
  let ?tr2 = "tr1 @ [Call_concatenate_videoclips cs ''compose'']"
  let ?run = "snd (create_summary_video bk self vs D tr)"
  let ?w = "\<lambda>c. Call_write_videofile c (output_path self) ''libx264'' ''aac'' (fps self)"
  have after: "\<exists>rest. ?run = tr3 @ [?w fc'] @ rest"
    if "add_audio bk self D fc ?tr2 = (fc', tr3)" for fc' tr3
    using create_summary_video_after_audio [OF assms(1,3,4) that] .
  have trim_fails: "\<exists>rest. ?run = tr1 @ [Call_concatenate_videoclips cs ''compose'',
        Call_subclip a 0 D, Print (Warning_audio e), ?w fc] @ rest"
    if "subclip bk ?tr2 a 0 D = Inl e" for e
  proof -
    have "add_audio bk self D fc ?tr2 = (fc, ?tr2 @ [Call_subclip a 0 D, Print (Warning_audio e)])"
      using that assms(2) by (simp add: add_audio_def Let_def)
    from after [OF this] show ?thesis by simp
  qed
  have attach_fails: "\<exists>rest. ?run = tr1 @ [Call_concatenate_videoclips cs ''compose'',
        Call_subclip a 0 D, Call_set_audio fc au, Print (Warning_audio e), ?w fc] @ rest"
    if "subclip bk ?tr2 a 0 D = Inr au"
      and "set_audio bk (tr1 @ [Call_concatenate_videoclips cs ''compose'', Call_subclip a 0 D]) fc au = Inl e"
    for au e
  proof -
    have "add_audio bk self D fc ?tr2 =
        (fc, ?tr2 @ [Call_subclip a 0 D, Call_set_audio fc au, Print (Warning_audio e)])"
      using that assms(2) by (simp add: add_audio_def Let_def)
    from after [OF this] show ?thesis by simp
  qed
  have attached: "\<exists>rest. ?run = tr1 @ [Call_concatenate_videoclips cs ''compose'',
        Call_subclip a 0 D, Call_set_audio fc au, ?w fc'] @ rest"
    if "subclip bk ?tr2 a 0 D = Inr au"
      and "set_audio bk (tr1 @ [Call_concatenate_videoclips cs ''compose'', Call_subclip a 0 D]) fc au = Inr fc'"
    for au fc'
  proof -
    have "add_audio bk self D fc ?tr2 = (fc', ?tr2 @ [Call_subclip a 0 D, Call_set_audio fc au])"
      using that assms(2) by (simp add: add_audio_def Let_def)
    from after [OF this] show ?thesis by simp
  qed
  have requested: "\<exists>rest. ?run = tr1 @ [Call_concatenate_videoclips cs ''compose'',
        Call_subclip a 0 D] @ rest"
  proof (cases "subclip bk ?tr2 a 0 D")
    case (Inl e)
    from trim_fails [OF this] show ?thesis by auto
  next
    case au: (Inr au)
    show ?thesis
    proof (cases "set_audio bk (tr1 @ [Call_concatenate_videoclips cs ''compose'', Call_subclip a 0 D]) fc au")
      case (Inl e)
      from attach_fails [OF au this] show ?thesis by auto
    next
      case (Inr fc')
      from attached [OF au this] show ?thesis by auto
    qed
  qed
  show ?thesis using requested trim_fails attach_fails attached by blast
qed

text \<open>Two clips on the backend whose audio cut fails: the whole run.\<close>

lemma audio_failure_run:
  "create_summary_video backend_audio_fails (summarizer_of 100) [11, 14] 30 [] =
     (Inr ''videoplayback_summary.mp4'',
      [Call_with_duration 11 15, Call_with_duration 14 15,
       Call_concatenate_videoclips [111, 114] ''compose'',
       Call_subclip 1 0 30,
       Print (Warning_audio (Exception ''no attribute subclip'')),
       Call_write_videofile 1000 ''videoplayback_summary.mp4'' ''libx264'' ''aac'' 30,
       Call_close 1000, Call_close 11, Call_close 14])"
  by (simp add: create_summary_video_def summary_body_def add_audio_def backend_audio_fails_def
      backend_ok_def summarizer_of_def Let_def)

text \<open>The same run as an instance of the theorem: a warning, then the encode of clip 1000.\<close>

theorem audio_is_best_effort_witness:
  "[11, 14 :: nat] \<noteq> [] \<and> audio (summarizer_of 100) = Some 1
   \<and> clips_with_duration backend_audio_fails (30 / real (length [11, 14 :: nat])) [11, 14] [] =
        (Inr [111, 114], [Call_with_duration 11 15, Call_with_duration 14 15])
   \<and> concatenate_videoclips backend_audio_fails [Call_with_duration 11 15, Call_with_duration 14 15]
        [111, 114] ''compose'' = Inr 1000
   \<and> subclip backend_audio_fails
        [Call_with_duration 11 15, Call_with_duration 14 15,
         Call_concatenate_videoclips [111, 114] ''compose''] 1 0 30
        = Inl (Exception ''no attribute subclip'')
   \<and> (\<exists>rest. snd (create_summary_video backend_audio_fails (summarizer_of 100) [11, 14] 30 []) =
         [Call_with_duration 11 15, Call_with_duration 14 15,
          Call_concatenate_videoclips [111, 114] ''compose'', Call_subclip 1 0 30,
          Print (Warning_audio (Exception ''no attribute subclip'')),
          Call_write_videofile 1000 ''videoplayback_summary.mp4'' ''libx264'' ''aac'' 30] @ rest)
   \<and> fst (create_summary_video backend_audio_fails (summarizer_of 100) [11, 14] 30 [])
        = Inr ''videoplayback_summary.mp4''"
proof -
  have a: "[11, 14 :: nat] \<noteq> []" by simp
  have b: "audio (summarizer_of 100) = Some 1" by (simp add: summarizer_of_def)
  have c: "clips_with_duration backend_audio_fails (30 / real (length [11, 14 :: nat])) [11, 14] [] =
        (Inr [111, 114], [Call_with_duration 11 15, Call_with_duration 14 15])"
    by (simp add: backend_audio_fails_def backend_ok_def Let_def)
  have d: "concatenate_videoclips backend_audio_fails [Call_with_duration 11 15, Call_with_duration 14 15]
        [111, 114] ''compose'' = Inr 1000"
    by (simp add: backend_audio_fails_def backend_ok_def)
  have e: "subclip backend_audio_fails
        ([Call_with_duration 11 15, Call_with_duration 14 15] @
         [Call_concatenate_videoclips [111, 114] ''compose'']) 1 0 30
        = Inl (Exception ''no attribute subclip'')"
    by (simp add: backend_audio_fails_def backend_ok_def)
  have f: "\<exists>rest. snd (create_summary_video backend_audio_fails (summarizer_of 100) [11, 14] 30 []) =
         [Call_with_duration 11 15, Call_with_duration 14 15,
          Call_concatenate_videoclips [111, 114] ''compose'', Call_subclip 1 0 30,
          Print (Warning_audio (Exception ''no attribute subclip'')),
          Call_write_videofile 1000 ''videoplayback_summary.mp4'' ''libx264'' ''aac'' 30] @ rest"
    using audio_is_best_effort [OF a b c d] e by (simp add: summarizer_of_def)
  have g: "fst (create_summary_video backend_audio_fails (summarizer_of 100) [11, 14] 30 [])
        = Inr ''videoplayback_summary.mp4''"
    by (simp add: audio_failure_run)
  show ?thesis using a b c d e f g by simp
qed

subsection \<open>Release of the clips\<close>

lemma summary_body_extends:
  "\<exists>x. snd (summary_body bk self vs D ad tr) = tr @ x"
proof -
  obtain r tr1 where c: "clips_with_duration bk ad vs tr = (r, tr1)"
    by (cases "clips_with_duration bk ad vs tr")
  obtain k where k: "tr1 = tr @ map (\<lambda>c. Call_with_duration c ad) (take k vs)"
    using clips_with_duration_trace [of vs bk ad tr] c by auto
  show ?thesis
  proof (cases r)
    case (Inl e)
    then show ?thesis using c k by (simp add: summary_body_def)
  next
    case (Inr cs)
    obtain x where "snd (summary_body bk self vs D ad tr)
           = tr1 @ [Call_concatenate_videoclips cs ''compose''] @ x"
      using summary_body_after_concatenate [of bk ad vs tr cs tr1 self D] c Inr by auto
    then show ?thesis using k by simp
  qed
qed

text \<open>
  Claim C9, as amended. With a non-empty list of clips whose \<^verbatim>\<open>close\<close> does not
  raise, every run of the composition, whatever succeeds or fails in it, ends with the
  closing of every input clip, in the order of the list; and when the encode succeeds, the
  final clip is closed right after it.
\<close>

theorem input_clips_closed_on_every_exit:
  assumes "vs \<noteq> []"
    and "\<forall>tr'. \<forall>h. h \<in> set vs \<longrightarrow> close bk tr' h = None"
  shows "(\<exists>evs. snd (create_summary_video bk self vs D tr) = tr @ evs @ map Call_close vs)
    \<and> (\<forall>cs tr1 fc fc' tr3.
          clips_with_duration bk (D / real (length vs)) vs tr = (Inr cs, tr1)
          \<and> concatenate_videoclips bk tr1 cs ''compose'' = Inr fc
          \<and> add_audio bk self D fc (tr1 @ [Call_concatenate_videoclips cs ''compose'']) = (fc', tr3)
          \<and> write_videofile bk tr3 fc' (output_path self) ''libx264'' ''aac'' (fps self) = None
          \<longrightarrow> (\<exists>evs. snd (create_summary_video bk self vs D tr) =
                 tr3 @ [Call_write_videofile fc' (output_path self) ''libx264'' ''aac'' (fps self),
                        Call_close fc'] @ evs @ map Call_close vs))"
proof -
  let ?ad = "D / real (length vs)"
  obtain r tr4 where b: "summary_body bk self vs D ?ad tr = (r, tr4)"
    by (cases "summary_body bk self vs D ?ad tr")
  let ?tr5 = "case r of Some e \<Rightarrow> tr4 @ [Print (Error_during_summary e)] | None \<Rightarrow> tr4"
  have run: "snd (create_summary_video bk self vs D tr) = ?tr5 @ map Call_close vs"
    using assms(1)
    by (simp add: create_summary_video_def b Let_def close_segments_all [OF assms(2)])
  obtain x where x: "tr4 = tr @ x"
    using summary_body_extends [of bk self vs D ?ad tr] b by auto
  obtain y where y: "?tr5 = tr @ y"
    using x by (cases r) auto
  have first: "\<exists>evs. snd (create_summary_video bk self vs D tr) = tr @ evs @ map Call_close vs"
    using run y by simp
  have second: "\<exists>evs. snd (create_summary_video bk self vs D tr) =
                 tr3 @ [Call_write_videofile fc' (output_path self) ''libx264'' ''aac'' (fps self),
                        Call_close fc'] @ evs @ map Call_close vs"
    if "clips_with_duration bk ?ad vs tr = (Inr cs, tr1)"
      and "concatenate_videoclips bk tr1 cs ''compose'' = Inr fc"
      and "add_audio bk self D fc (tr1 @ [Call_concatenate_videoclips cs ''compose'']) = (fc', tr3)"
      and "write_videofile bk tr3 fc' (output_path self) ''libx264'' ''aac'' (fps self) = None"
    for cs tr1 fc fc' tr3
  proof -
    have "tr4 = tr3 @ [Call_write_videofile fc' (output_path self) ''libx264'' ''aac'' (fps self),
                        Call_close fc']"
      using b that by (simp add: summary_body_def Let_def)
    then obtain z where "?tr5 = tr3 @ [Call_write_videofile fc' (output_path self) ''libx264'' ''aac'' (fps self),
                        Call_close fc'] @ z"
      by (cases r) auto
    then show ?thesis using run by simp
  qed
  show ?thesis using first second by blast
qed

text \<open>The failing encoder, the failing audio cut and the run without failure.\<close>

theorem input_clips_closed_on_every_exit_witness:
  "[11, 14 :: nat] \<noteq> []
   \<and> close backend_encode_fails [] 11 = None
   \<and> (\<exists>evs. snd (create_summary_video backend_encode_fails (summarizer_of 100) [11, 14] 30 [])
         = evs @ [Call_close 11, Call_close 14])
   \<and> (\<exists>evs. snd (create_summary_video backend_audio_fails (summarizer_of 100) [11, 14] 30 [])
         = evs @ [Call_close 11, Call_close 14])
   \<and> (\<exists>evs. snd (create_summary_video backend_ok (summarizer_of 100) [11, 14] 30 [])
         = evs @ [Call_close 11, Call_close 14])"
proof -
  have a: "[11, 14 :: nat] \<noteq> []" by simp
  have b: "\<forall>tr'. \<forall>h. h \<in> set [11, 14 :: nat] \<longrightarrow> close backend_encode_fails tr' h = None"
    by (simp add: backend_encode_fails_def backend_ok_def)
  have c: "\<forall>tr'. \<forall>h. h \<in> set [11, 14 :: nat] \<longrightarrow> close backend_audio_fails tr' h = None"
    by (simp add: backend_audio_fails_def backend_ok_def)
  have d: "\<forall>tr'. \<forall>h. h \<in> set [11, 14 :: nat] \<longrightarrow> close backend_ok tr' h = None"
    by (simp add: backend_ok_def)
  have e: "close backend_encode_fails [] 11 = None"
    by (simp add: backend_encode_fails_def backend_ok_def)
  show ?thesis
    using input_clips_closed_on_every_exit [OF a b, of "summarizer_of 100" 30 "[]"]
      input_clips_closed_on_every_exit [OF a c, of "summarizer_of 100" 30 "[]"]
      input_clips_closed_on_every_exit [OF a d, of "summarizer_of 100" 30 "[]"] e
    by simp
qed

text \<open>
  The intermediate clips are not released. In the run without failure the rescaled clips
  111 and 114 and the concatenation 1000 are never closed (the final clip 3000 is); with a
  failing encoder the final clip 3000 is not closed either.
\<close>

theorem intermediate_clips_not_closed:
  "snd (create_summary_video backend_ok (summarizer_of 100) [11, 14] 30 []) =
      [Call_with_duration 11 15, Call_with_duration 14 15,
       Call_concatenate_videoclips [111, 114] ''compose'',
       Call_subclip 1 0 30, Call_set_audio 1000 2000,
       Call_write_videofile 3000 ''videoplayback_summary.mp4'' ''libx264'' ''aac'' 30,
       Call_close 3000, Call_close 11, Call_close 14]
   \<and> closed_handles (snd (create_summary_video backend_ok (summarizer_of 100) [11, 14] 30 []))
       = [3000, 11, 14]
   \<and> snd (create_summary_video backend_encode_fails (summarizer_of 100) [11, 14] 30 []) =
      [Call_with_duration 11 15, Call_with_duration 14 15,
       Call_concatenate_videoclips [111, 114] ''compose'',
       Call_subclip 1 0 30, Call_set_audio 1000 2000,
       Call_write_videofile 3000 ''videoplayback_summary.mp4'' ''libx264'' ''aac'' 30,
       Print (Error_during_summary (Exception ''encoder error'')),
       Call_close 11, Call_close 14]
   \<and> closed_handles (snd (create_summary_video backend_encode_fails (summarizer_of 100) [11, 14] 30 []))
       = [11, 14]"
  by (simp add: create_summary_video_def summary_body_def add_audio_def backend_encode_fails_def
      backend_ok_def summarizer_of_def Let_def)

section \<open>Facts about the default output path\<close>

lemma rfind_bounds: "- 1 \<le> rfind p c \<and> rfind p c < int (length p)"
  by (induction p) (auto simp add: Let_def)

lemma rfind_nth: "0 \<le> rfind p c \<Longrightarrow> p ! nat (rfind p c) = c"
proof (induction p)
  case Nil
  then show ?case by simp
next
  case (Cons x xs)
  show ?case
  proof (cases "0 \<le> rfind xs c")
    case True
    then have "nat (rfind xs c + 1) = Suc (nat (rfind xs c))" by simp
    then show ?thesis using True Cons.IH by (simp add: Let_def)
  next
    case False
    then show ?thesis using Cons.prems by (simp add: Let_def split: if_splits)
  qed
qed

lemma rfind_after: "rfind p c < int k \<Longrightarrow> c \<notin> set (drop k p)"
proof (induction p arbitrary: k)
  case Nil
  then show ?case by simp
next
  case (Cons x xs)
  show ?case
  proof (cases k)
    case 0
    then have neg: "rfind (x # xs) c < 0" using Cons.prems by simp
    then have r: "rfind xs c < 0" and x: "x \<noteq> c"
      by (auto simp add: Let_def split: if_splits)
    have "c \<notin> set (drop 0 xs)" using Cons.IH [of 0] r by simp
    then show ?thesis using 0 x by simp
  next
    case (Suc j)
    have "rfind xs c < int j"
      using Cons.prems Suc rfind_bounds [of xs c] by (auto simp add: Let_def split: if_splits)
    then show ?thesis using Cons.IH [of j] Suc by simp
  qed
qed

lemma splitext_generic_parts:
  assumes "splitext_generic p sep altsep = (base, ext)"
  shows "p = base @ ext"
    and "ext = [] \<or> (\<exists>e. ext = CHR ''.'' # e \<and> CHR ''.'' \<notin> set e \<and> sep \<notin> set e)"
proof -
  let ?sepIndex = "case altsep of None \<Rightarrow> rfind p sep | Some a \<Rightarrow> max (rfind p sep) (rfind p a)"
  let ?dotIndex = "rfind p CHR ''.''"
  show "p = base @ ext"
    using assms by (auto simp add: splitext_generic_def Let_def split: if_splits)
  show "ext = [] \<or> (\<exists>e. ext = CHR ''.'' # e \<and> CHR ''.'' \<notin> set e \<and> sep \<notin> set e)"
  proof (cases "?dotIndex > ?sepIndex \<and> skip_leading_dots p (nat (?sepIndex + 1)) (nat ?dotIndex)")
    case False
    then have "ext = []" using assms by (auto simp add: splitext_generic_def Let_def)
    then show ?thesis by simp
  next
    case True
    then have ext: "ext = drop (nat ?dotIndex) p"
      using assms by (auto simp add: splitext_generic_def Let_def)
    have sep_le: "rfind p sep \<le> ?sepIndex" by (cases altsep) simp_all
    have "- 1 \<le> rfind p sep" using rfind_bounds [of p sep] by simp
    then have dot0: "0 \<le> ?dotIndex" using True sep_le by linarith
    have lt: "nat ?dotIndex < length p" using rfind_bounds [of p "CHR ''.''"] dot0 by linarith
    have hd: "p ! nat ?dotIndex = CHR ''.''" using rfind_nth [OF dot0] .
    have split: "drop (nat ?dotIndex) p = CHR ''.'' # drop (Suc (nat ?dotIndex)) p"
      using Cons_nth_drop_Suc [OF lt] hd by simp
    have "?dotIndex < int (Suc (nat ?dotIndex))" using dot0 by simp
    then have nodot: "CHR ''.'' \<notin> set (drop (Suc (nat ?dotIndex)) p)" by (rule rfind_after)
    have "rfind p sep < int (Suc (nat ?dotIndex))" using True sep_le dot0 by linarith
    then have nosep: "sep \<notin> set (drop (Suc (nat ?dotIndex)) p)" by (rule rfind_after)
    show ?thesis using ext split nodot nosep by simp
  qed
qed

lemma splitext_parts:
  assumes "splitext os p = (base, ext)"
  shows "p = base @ ext"
    and "ext = [] \<or> (\<exists>e. ext = CHR ''.'' # e \<and> CHR ''.'' \<notin> set e
            \<and> (case os of Posix \<Rightarrow> CHR ''/'' | Nt \<Rightarrow> CHR 0x5C) \<notin> set e)"
proof -
  show "p = base @ ext"
    using assms splitext_generic_parts(1) by (cases os) (auto simp add: splitext_def)
  show "ext = [] \<or> (\<exists>e. ext = CHR ''.'' # e \<and> CHR ''.'' \<notin> set e
            \<and> (case os of Posix \<Rightarrow> CHR ''/'' | Nt \<Rightarrow> CHR 0x5C) \<notin> set e)"
  proof (cases os)
    case Posix
    then show ?thesis
      using assms splitext_generic_parts(2) [of p "CHR ''/''" None base ext]
      by (simp add: splitext_def)
  next
    case Nt
    then show ?thesis
      using assms splitext_generic_parts(2) [of p "CHR 0x5C" "Some CHR ''/''" base ext]
      by (simp add: splitext_def)
  qed
qed

lemma init_output_path:
  assumes "fst (init os bk inp outp tr) = Inr self"
  shows "output_path self =
     (case outp of None \<Rightarrow> generate_output_path os inp
      | Some p \<Rightarrow> if p = [] then generate_output_path os inp else p)"
    and "input_path self = inp"
  using assms
  by (auto simp add: init_def Let_def split: sum.splits if_splits)

text \<open>
  Claim C10. When the constructor succeeds and was given no output path, or the empty
  string, the output path is the input path with \<open>_summary\<close> inserted between the two
  parts \<^verbatim>\<open>os.path.splitext\<close> cuts it into: the stem, and the extension, which is
  empty or a dot followed by characters that are neither a dot nor the path separator.
\<close>

theorem default_output_path:
  assumes "outp = None \<or> outp = Some []"
    and "fst (init os bk inp outp tr) = Inr self"
  shows "\<exists>base ext. splitext os inp = (base, ext) \<and> inp = base @ ext
     \<and> output_path self = base @ ''_summary'' @ ext
     \<and> (ext = [] \<or> (\<exists>e. ext = CHR ''.'' # e \<and> CHR ''.'' \<notin> set e
            \<and> (case os of Posix \<Rightarrow> CHR ''/'' | Nt \<Rightarrow> CHR 0x5C) \<notin> set e))"
proof -
  obtain base ext where s: "splitext os inp = (base, ext)" by (cases "splitext os inp")
  have "output_path self = generate_output_path os inp"
    using assms(1) init_output_path(1) [OF assms(2)] by auto
  then have "output_path self = base @ ''_summary'' @ ext"
    by (simp add: generate_output_path_def s)
  then show ?thesis using s splitext_parts [OF s] by blast
qed

text \<open>The example of the claim.\<close>

lemma splitext_example: "splitext Posix ''a/b.mp4'' = (''a/b'', ''.mp4'')"
  by (simp add: splitext_def splitext_generic_def Let_def skip_leading_dots.simps)

lemma init_example:
  "fst (init Posix backend_ok ''a/b.mp4'' (Some []) [])
     = Inr \<lparr>input_path = ''a/b.mp4'', output_path = ''a/b_summary.mp4'', video = 0, fps = 30,
            width = 640, height = 480, total_duration = 100, audio = Some 1\<rparr>"
  by (simp add: init_def Let_def backend_ok_def generate_output_path_def splitext_example)

theorem default_output_path_witness:
  "(\<exists>self. fst (init Posix backend_ok ''a/b.mp4'' (Some []) []) = Inr self
       \<and> output_path self = ''a/b_summary.mp4'')
   \<and> (\<exists>self. fst (init Posix backend_ok ''a/b.mp4'' None []) = Inr self
       \<and> output_path self = ''a/b_summary.mp4'')"
proof -
  have n: "fst (init Posix backend_ok ''a/b.mp4'' None [])
     = Inr \<lparr>input_path = ''a/b.mp4'', output_path = ''a/b_summary.mp4'', video = 0, fps = 30,
            width = 640, height = 480, total_duration = 100, audio = Some 1\<rparr>"
    by (simp add: init_def Let_def backend_ok_def generate_output_path_def splitext_example)
  have a: "output_path \<lparr>input_path = ''a/b.mp4'', output_path = ''a/b_summary.mp4'', video = 0, fps = 30,
            width = 640, height = 480, total_duration = 100, audio = Some 1\<rparr> = ''a/b_summary.mp4''"
  proof -
    have h: "Some [] = None \<or> Some [] = Some ([] :: string)" by simp
    show ?thesis
      using default_output_path [OF h init_example] by (simp add: splitext_example)
  qed
  show ?thesis using a n init_example by simp
qed

end
